theory Spec2Isabelle
  imports Main
begin

section \<open>User sub-commands of the FAB auth manager\<close>

text \<open>
  This theory embeds \<^verbatim>\<open>cli_commands/user_command.py\<close>: the marshmallow schema
  \<^verbatim>\<open>UserSchema\<close>, the helpers \<^verbatim>\<open>_find_user\<close>, \<^verbatim>\<open>_create_password\<close> and
  \<^verbatim>\<open>_import_users\<close> (named here without the leading underscore) and the commands
  \<^verbatim>\<open>users_create\<close>, \<^verbatim>\<open>user_reset_password\<close>, \<^verbatim>\<open>users_delete\<close>,
  \<^verbatim>\<open>users_manage_role\<close> and \<^verbatim>\<open>users_export\<close>.
  A \<^verbatim>\<open>raise SystemExit(...)\<close> is an \<open>Inl\<close> result; the security manager
  \<^verbatim>\<open>appbuilder.sm\<close> is an explicit store that every function takes and returns.
  The \<^verbatim>\<open>print\<close> calls are informational and are left out.
\<close>

subsection \<open>Decoded JSON and Python truth values\<close>

text \<open>
  What \<^verbatim>\<open>json.loads\<close> returns. A float keeps the text of its literal: no operation of
  the commands computes with it. A dict is an association list read with \<open>map_of\<close>.
\<close>

datatype json =
    JNull
  | JBool bool
  | JInt int
  | JFloat string
  | JStr string
  | JList "json list"
  | JObj "(string \<times> json) list"

type_synonym pydict = "(string \<times> json) list"

text \<open>The truth value Python gives an optional string: \<^verbatim>\<open>None\<close> and \<^verbatim>\<open>""\<close> are false.\<close>

definition truthy :: "string option \<Rightarrow> bool" where
  "truthy a = (case a of None \<Rightarrow> False | Some s \<Rightarrow> s \<noteq> [])"

subsection \<open>Errors\<close>

text \<open>
  A validation failure of one field is a list of messages, or, for the list field
  \<^verbatim>\<open>roles\<close>, messages keyed by the position of the offending element. The report of a
  batch is keyed by row index, then by field, as \<^verbatim>\<open>normalized_messages()\<close> is.
\<close>

datatype failure = Messages "string list" | Items "(nat \<times> string list) list"

type_synonym row_errors = "(string \<times> failure) list"

type_synonym report = "(nat \<times> row_errors) list"

type_synonym role = string

text \<open>One constructor for each \<^verbatim>\<open>SystemExit\<close> of the file, named after the error taxonomy.\<close>

datatype error =
    UnknownRole string "role list"
  | CreateFailed
  | MissingArgs
  | ConflictingArgs
  | NotFound string
  | ResetFailed
  | PasswordMismatch
  | DeleteFailed
  | NotMember string role
  | AlreadyMember string role
  | ValidationError report
  | IdentityConflict string
  | PyException string

subsection \<open>UserSchema\<close>

text \<open>
  The two library validators whose definition is a regular expression or a parser are
  parameters: \<open>email_ok\<close> is marshmallow's \<^verbatim>\<open>validate.Email\<close> on a string, and
  \<open>int_ok\<close> says whether \<^verbatim>\<open>int(value)\<close> succeeds on a string or a float.
\<close>

record validators =
  email_ok :: "string \<Rightarrow> bool"
  int_ok :: "json \<Rightarrow> bool"

text \<open>\<^verbatim>\<open>fields.Int()\<close>: an integer passes, a boolean is refused, a collection is not a number.\<close>

definition Int_field :: "validators \<Rightarrow> json \<Rightarrow> failure option" where
  "Int_field vl v =
     (case v of
        JInt n \<Rightarrow> None
      | JStr s \<Rightarrow> if int_ok vl v then None else Some (Messages [''Not a valid integer.''])
      | JFloat s \<Rightarrow> if int_ok vl v then None else Some (Messages [''Not a valid integer.''])
      | _ \<Rightarrow> Some (Messages [''Not a valid integer.'']))"

text \<open>\<^verbatim>\<open>fields.Str\<close>: any string passes, the empty one too; the field has no validator.\<close>

definition Str_field :: "json \<Rightarrow> failure option" where
  "Str_field v =
     (case v of JStr s \<Rightarrow> None | _ \<Rightarrow> Some (Messages [''Not a valid string.'']))"

text \<open>\<^verbatim>\<open>fields.Email\<close>: a string, then the address validator.\<close>

definition Email_field :: "validators \<Rightarrow> json \<Rightarrow> failure option" where
  "Email_field vl v =
     (case v of
        JStr s \<Rightarrow> if email_ok vl s then None else Some (Messages [''Not a valid email address.''])
      | _ \<Rightarrow> Some (Messages [''Not a valid string.'']))"

text \<open>The elements of \<^verbatim>\<open>fields.List(fields.Str)\<close>, each checked at its position.\<close>

fun item_errors :: "nat \<Rightarrow> json list \<Rightarrow> (nat \<times> string list) list" where
  "item_errors i [] = []"
| "item_errors i (JStr s # xs) = item_errors (Suc i) xs"
| "item_errors i (JNull # xs) = (i, [''Field may not be null.'']) # item_errors (Suc i) xs"
| "item_errors i (x # xs) = (i, [''Not a valid string.'']) # item_errors (Suc i) xs"

text \<open>
  \<^verbatim>\<open>fields.List(fields.Str, validate=validate.Length(min=1))\<close>: the value is a list, its
  elements are strings, and only then the length validator runs.
\<close>

definition List_field :: "json \<Rightarrow> failure option" where
  "List_field v =
     (case v of
        JList xs \<Rightarrow>
          (if item_errors 0 xs \<noteq> [] then Some (Items (item_errors 0 xs))
           else if length xs < 1 then Some (Messages [''Shorter than minimum length 1.''])
           else None)
      | _ \<Rightarrow> Some (Messages [''Not a valid list.'']))"

text \<open>
  One declared field of a row: a missing key is an error only when the field is required,
  \<^verbatim>\<open>null\<close> is refused (no field allows it), any other value goes to the field's check.
\<close>

definition check_field ::
  "bool \<Rightarrow> (json \<Rightarrow> failure option) \<Rightarrow> pydict \<Rightarrow> string \<Rightarrow> row_errors" where
  "check_field required chk d name =
     (case map_of d name of
        None \<Rightarrow> if required then [(name, Messages [''Missing data for required field.''])] else []
      | Some JNull \<Rightarrow> [(name, Messages [''Field may not be null.''])]
      | Some v \<Rightarrow> (case chk v of None \<Rightarrow> [] | Some f \<Rightarrow> [(name, f)]))"

definition declared_fields :: "string list" where
  "declared_fields = [''id'', ''firstname'', ''lastname'', ''username'', ''email'', ''roles'']"

text \<open>A key that the schema does not declare is an error (marshmallow's default \<^verbatim>\<open>RAISE\<close>).\<close>

definition unknown_fields :: "pydict \<Rightarrow> row_errors" where
  "unknown_fields d =
     map (\<lambda>k. (k, Messages [''Unknown field.'']))
       (filter (\<lambda>k. k \<notin> set declared_fields) (remdups (map fst d)))"

text \<open>The errors of one row, field by field in the order of the class body.\<close>

definition UserSchema_row :: "validators \<Rightarrow> pydict \<Rightarrow> row_errors" where
  "UserSchema_row vl d =
     check_field False (Int_field vl) d ''id''
     @ check_field True Str_field d ''firstname''
     @ check_field True Str_field d ''lastname''
     @ check_field True Str_field d ''username''
     @ check_field True (Email_field vl) d ''email''
     @ check_field True List_field d ''roles''
     @ unknown_fields d"

text \<open>
  \<^verbatim>\<open>UserSchema(many=True).load\<close>: every row is checked, and the rows with errors are
  collected under their index. An empty report means that the load succeeds.
\<close>

definition UserSchema_load :: "validators \<Rightarrow> pydict list \<Rightarrow> report" where
  "UserSchema_load vl ds =
     filter (\<lambda>(i, errs). errs \<noteq> []) (enumerate 0 (map (UserSchema_row vl) ds))"

text \<open>
  The reading of section 4.1 of the specification, to compare with \<open>UserSchema_row\<close>:
  first name, last name and user name are present and non-empty strings, the email is a
  syntactically valid address, the roles are a non-empty list of strings.
\<close>

definition spec_nonempty_str :: "pydict \<Rightarrow> string \<Rightarrow> bool" where
  "spec_nonempty_str d name = (\<exists>s. map_of d name = Some (JStr s) \<and> s \<noteq> [])"

definition spec_record_ok :: "validators \<Rightarrow> pydict \<Rightarrow> bool" where
  "spec_record_ok vl d \<longleftrightarrow>
     spec_nonempty_str d ''firstname'' \<and> spec_nonempty_str d ''lastname''
     \<and> spec_nonempty_str d ''username''
     \<and> (\<exists>s. map_of d ''email'' = Some (JStr s) \<and> email_ok vl s)
     \<and> (\<exists>ns. map_of d ''roles'' = Some (JList (map JStr ns)) \<and> ns \<noteq> [])"

subsection \<open>The identity store\<close>

text \<open>
  A user as the store holds it. The field \<open>user_id\<close> is the attribute \<^verbatim>\<open>id\<close>; a
  role is identified by its unique name.
\<close>

record user =
  user_id :: nat
  username :: string
  email :: string
  first_name :: string
  last_name :: string
  roles :: "role list"
  password :: string

text \<open>The methods of \<^verbatim>\<open>appbuilder.sm\<close> that the commands call, as entries of a call log.\<close>

datatype call =
    FindRole string
  | GetAllRoles
  | FindUser "string option" "string option"
  | GetAllUsers
  | AddUser string string
  | UpdateUser nat
  | DelRegisterUser nat
  | ResetPassword nat

text \<open>
  Modelled from the spec: the security manager \<^verbatim>\<open>appbuilder.sm\<close> is not part of the
  source file. The store holds the users in enumeration order, the names of the roles,
  the next identifier to assign, the mutation requests it rejects (the specification's
  \<^verbatim>\<open>StoreError\<close>), and the log of the calls made to it. A user object handed out by
  the store is a reference to the store's own object: it is the position of the user in
  \<open>users\<close>, so that an attribute assignment in a command changes the store.
\<close>

record store =
  users :: "user list"
  all_roles :: "role list"
  next_id :: nat
  rejects :: "call \<Rightarrow> bool"
  calls :: "call list"

definition log :: "call \<Rightarrow> store \<Rightarrow> store" where
  "log c st = st\<lparr>calls := calls st @ [c]\<rparr>"

text \<open>The first element that satisfies \<open>P\<close>, with its position.\<close>

fun locate :: "('a \<Rightarrow> bool) \<Rightarrow> 'a list \<Rightarrow> (nat \<times> 'a) option" where
  "locate P [] = None"
| "locate P (x # xs) =
     (if P x then Some (0, x)
      else (case locate P xs of None \<Rightarrow> None | Some (i, y) \<Rightarrow> Some (Suc i, y)))"

text \<open>
  Modelled from the spec: \<^verbatim>\<open>findUser(username|email)\<close>. The user name is the key when
  it is given, the email otherwise; an empty string counts as not given.
\<close>

definition lookup_user :: "string option \<Rightarrow> string option \<Rightarrow> user list \<Rightarrow> (nat \<times> user) option" where
  "lookup_user un em us =
     (case un of
        Some n \<Rightarrow>
          (if n \<noteq> [] then locate (\<lambda>u. username u = n) us
           else (case em of
                   Some e \<Rightarrow> if e \<noteq> [] then locate (\<lambda>u. email u = e) us else None
                 | None \<Rightarrow> None))
      | None \<Rightarrow>
          (case em of
             Some e \<Rightarrow> if e \<noteq> [] then locate (\<lambda>u. email u = e) us else None
           | None \<Rightarrow> None))"

definition sm_find_user ::
  "string option \<Rightarrow> string option \<Rightarrow> store \<Rightarrow> (nat \<times> user) option \<times> store" where
  "sm_find_user un em st = (lookup_user un em (users st), log (FindUser un em) st)"

text \<open>Modelled from the spec: \<^verbatim>\<open>findRole(name)\<close>, the role of that name if there is one.\<close>

definition sm_find_role :: "string \<Rightarrow> store \<Rightarrow> role option \<times> store" where
  "sm_find_role name st =
     (if name \<in> set (all_roles st) then Some name else None, log (FindRole name) st)"

text \<open>Modelled from the spec: \<^verbatim>\<open>listRoles()\<close>.\<close>

definition sm_get_all_roles :: "store \<Rightarrow> role list \<times> store" where
  "sm_get_all_roles st = (all_roles st, log GetAllRoles st)"

text \<open>Modelled from the spec: \<^verbatim>\<open>listUsers()\<close>, in the store's enumeration order.\<close>

definition sm_get_all_users :: "store \<Rightarrow> user list \<times> store" where
  "sm_get_all_users st = (users st, log GetAllUsers st)"

text \<open>
  Modelled from the spec: \<^verbatim>\<open>addUser(fields)\<close>. User name and email are each unique in
  the store (section 3), so a request that repeats one of them is refused, as is a request
  the store rejects. A refusal adds nothing and returns no user, which is what the test
  \<^verbatim>\<open>if user:\<close> of \<^verbatim>\<open>users_create\<close> reads; an accepted request appends one user
  with the next identifier.
\<close>

definition sm_add_user ::
  "string \<Rightarrow> string \<Rightarrow> string \<Rightarrow> string \<Rightarrow> role list \<Rightarrow> string \<Rightarrow> store
     \<Rightarrow> user option \<times> store" where
  "sm_add_user un fn ln em rs pw st =
     (if rejects st (AddUser un em)
         \<or> un \<in> set (map username (users st)) \<or> em \<in> set (map email (users st))
      then (None, log (AddUser un em) st)
      else
        (let u = \<lparr>user_id = next_id st, username = un, email = em, first_name = fn,
                  last_name = ln, roles = rs, password = pw\<rparr>
         in (Some u,
             log (AddUser un em) (st\<lparr>users := users st @ [u], next_id := Suc (next_id st)\<rparr>))))"

text \<open>
  Modelled from the spec: \<^verbatim>\<open>updateUser(record)\<close> persists the object it is given. The
  object is the store's own, so its attributes already have their new values; no command
  reads the result of the call.
\<close>

definition sm_update_user :: "nat \<Rightarrow> store \<Rightarrow> store" where
  "sm_update_user i st = log (UpdateUser i) st"

text \<open>
  Modelled from the spec: \<^verbatim>\<open>deleteUser(record)\<close>. An accepted request removes the
  user; a rejected one returns false and leaves the store as it is, without rolling back
  what the command did before (section 4.7).
\<close>

definition sm_del_register_user :: "nat \<Rightarrow> store \<Rightarrow> bool \<times> store" where
  "sm_del_register_user i st =
     (if rejects st (DelRegisterUser i) then (False, log (DelRegisterUser i) st)
      else (True, log (DelRegisterUser i) (st\<lparr>users := take i (users st) @ drop (Suc i) (users st)\<rparr>)))"

text \<open>
  Modelled from the spec: \<^verbatim>\<open>resetPassword(id, secret)\<close> replaces the credential of
  the user with that identifier, and nothing else.
\<close>

definition sm_reset_password :: "nat \<Rightarrow> string \<Rightarrow> store \<Rightarrow> bool \<times> store" where
  "sm_reset_password uid pw st =
     (if rejects st (ResetPassword uid) then (False, log (ResetPassword uid) st)
      else (True,
            log (ResetPassword uid)
              (st\<lparr>users := map (\<lambda>u. if user_id u = uid then u\<lparr>password := pw\<rparr> else u) (users st)\<rparr>)))"

text \<open>An attribute assignment on the user object at position \<open>i\<close>.\<close>

definition modify_user :: "nat \<Rightarrow> (user \<Rightarrow> user) \<Rightarrow> store \<Rightarrow> store" where
  "modify_user i f st =
     (if i < length (users st) then st\<lparr>users := (users st)[i := f (users st ! i)]\<rparr> else st)"

subsection \<open>Single-record commands\<close>

text \<open>
  The attributes of \<^verbatim>\<open>args\<close> that the lookup commands read: \<^verbatim>\<open>--username\<close> and
  \<^verbatim>\<open>--email\<close> are optional, the role is read by \<^verbatim>\<open>users_manage_role\<close>, the two
  password attributes by \<^verbatim>\<open>_create_password\<close>.
\<close>

record args =
  arg_username :: "string option"
  arg_email :: "string option"
  arg_role :: string
  arg_password :: "string option"
  arg_use_random_password :: bool

text \<open>The arguments of \<^verbatim>\<open>users_create\<close>, all of which the command line requires.\<close>

record create_args =
  new_username :: string
  new_firstname :: string
  new_lastname :: string
  new_email :: string
  new_role :: string
  new_password :: "string option"
  new_use_random_password :: bool

text \<open>
  What the process reads from outside its arguments: the sixteen characters drawn by
  \<^verbatim>\<open>random.choices\<close> and the two answers to \<^verbatim>\<open>getpass\<close>.
\<close>

record console =
  random_choice :: string
  entry :: string
  confirmation :: string

definition create_password :: "bool \<Rightarrow> string option \<Rightarrow> console \<Rightarrow> error + string" where
  "create_password use_random pw con =
     (if use_random then Inr (random_choice con)
      else (case pw of
              Some p \<Rightarrow>
                (if p \<noteq> [] then Inr p
                 else if entry con \<noteq> confirmation con then Inl PasswordMismatch
                 else Inr (entry con))
            | None \<Rightarrow>
                (if entry con \<noteq> confirmation con then Inl PasswordMismatch
                 else Inr (entry con))))"

definition users_create :: "create_args \<Rightarrow> console \<Rightarrow> store \<Rightarrow> (error + unit) \<times> store" where
  "users_create a con st =
     (case sm_find_role (new_role a) st of
        (None, st1) \<Rightarrow>
          (case sm_get_all_roles st1 of
             (valid_roles, st2) \<Rightarrow> (Inl (UnknownRole (new_role a) valid_roles), st2))
      | (Some r, st1) \<Rightarrow>
          (case create_password (new_use_random_password a) (new_password a) con of
             Inl e \<Rightarrow> (Inl e, st1)
           | Inr pw \<Rightarrow>
               (case sm_find_user (Some (new_username a)) None st1 of
                  (Some existing, st2) \<Rightarrow> (Inr (), st2)
                | (None, st2) \<Rightarrow>
                    (case sm_add_user (new_username a) (new_firstname a) (new_lastname a)
                            (new_email a) [r] pw st2 of
                       (Some u, st3) \<Rightarrow> (Inr (), st3)
                     | (None, st3) \<Rightarrow> (Inl CreateFailed, st3)))))"

text \<open>\<^verbatim>\<open>args.username or args.email\<close>, in the message of the lookup that finds nobody.\<close>

definition lookup_key :: "args \<Rightarrow> string" where
  "lookup_key a =
     (if truthy (arg_username a) then (case arg_username a of Some n \<Rightarrow> n | None \<Rightarrow> [])
      else (case arg_email a of Some e \<Rightarrow> e | None \<Rightarrow> []))"

definition find_user :: "args \<Rightarrow> store \<Rightarrow> (error + nat \<times> user) \<times> store" where
  "find_user a st =
     (if \<not> truthy (arg_username a) \<and> \<not> truthy (arg_email a) then (Inl MissingArgs, st)
      else if truthy (arg_username a) \<and> truthy (arg_email a) then (Inl ConflictingArgs, st)
      else
        (case sm_find_user (arg_username a) (arg_email a) st of
           (None, st1) \<Rightarrow> (Inl (NotFound (lookup_key a)), st1)
         | (Some ref, st1) \<Rightarrow> (Inr ref, st1)))"

definition user_reset_password :: "args \<Rightarrow> console \<Rightarrow> store \<Rightarrow> (error + unit) \<times> store" where
  "user_reset_password a con st =
     (case find_user a st of
        (Inl e, st1) \<Rightarrow> (Inl e, st1)
      | (Inr (i, u), st1) \<Rightarrow>
          (case create_password (arg_use_random_password a) (arg_password a) con of
             Inl e \<Rightarrow> (Inl e, st1)
           | Inr pw \<Rightarrow>
               (case sm_reset_password (user_id u) pw st1 of
                  (True, st2) \<Rightarrow> (Inr (), st2)
                | (False, st2) \<Rightarrow> (Inl ResetFailed, st2))))"

text \<open>
  \<^verbatim>\<open>user.roles.clear()\<close> empties the role list of the object that \<^verbatim>\<open>_find_user\<close>
  returned, before the store is asked to delete it.
\<close>

definition users_delete :: "args \<Rightarrow> store \<Rightarrow> (error + unit) \<times> store" where
  "users_delete a st =
     (case find_user a st of
        (Inl e, st1) \<Rightarrow> (Inl e, st1)
      | (Inr (i, u), st1) \<Rightarrow>
          (case sm_del_register_user i (modify_user i (\<lambda>x. x\<lparr>roles := []\<rparr>) st1) of
             (True, st2) \<Rightarrow> (Inr (), st2)
           | (False, st2) \<Rightarrow> (Inl DeleteFailed, st2)))"

definition users_manage_role :: "args \<Rightarrow> bool \<Rightarrow> store \<Rightarrow> (error + unit) \<times> store" where
  "users_manage_role a remove st =
     (case find_user a st of
        (Inl e, st1) \<Rightarrow> (Inl e, st1)
      | (Inr (i, u), st1) \<Rightarrow>
          (case sm_find_role (arg_role a) st1 of
             (None, st2) \<Rightarrow>
               (case sm_get_all_roles st2 of
                  (valid_roles, st3) \<Rightarrow> (Inl (UnknownRole (arg_role a) valid_roles), st3))
           | (Some r, st2) \<Rightarrow>
               (if remove then
                  (if r \<notin> set (roles u) then (Inl (NotMember (username u) (arg_role a)), st2)
                   else
                     (Inr (),
                      sm_update_user i
                        (modify_user i (\<lambda>x. x\<lparr>roles := filter (\<lambda>q. q \<noteq> r) (roles x)\<rparr>) st2)))
                else
                  (if r \<in> set (roles u) then (Inl (AlreadyMember (username u) (arg_role a)), st2)
                   else
                     (Inr (),
                      sm_update_user i (modify_user i (\<lambda>x. x\<lparr>roles := roles x @ [r]\<rparr>) st2))))))"

definition add_role :: "args \<Rightarrow> store \<Rightarrow> (error + unit) \<times> store" where
  "add_role a st = users_manage_role a False st"

definition remove_role :: "args \<Rightarrow> store \<Rightarrow> (error + unit) \<times> store" where
  "remove_role a st = users_manage_role a True st"

subsection \<open>Export\<close>

text \<open>
  One exported user: the fields \<^verbatim>\<open>id, username, email, first_name, last_name, roles\<close>
  with the underscores removed from the keys and the roles given by name, in the store's
  order. \<^verbatim>\<open>json.dumps(sort_keys=True)\<close> writes the keys of each object in lexical
  order, which a lookup by key does not observe.
\<close>

definition snapshot :: "user \<Rightarrow> pydict" where
  "snapshot u =
     [(''id'', JInt (int (user_id u))),
      (''username'', JStr (username u)),
      (''email'', JStr (email u)),
      (''firstname'', JStr (first_name u)),
      (''lastname'', JStr (last_name u)),
      (''roles'', JList (map JStr (roles u)))]"

definition users_export :: "store \<Rightarrow> pydict list \<times> store" where
  "users_export st = (case sm_get_all_users st of (us, st1) \<Rightarrow> (map snapshot us, st1))"

subsection \<open>Import\<close>

text \<open>
  The loop of \<^verbatim>\<open>_import_users\<close> reads the rows as they were decoded, not the result
  of the schema load. \<open>str_at\<close> is \<^verbatim>\<open>user[key]\<close> for a key that holds a string and
  \<open>names_at\<close> is \<^verbatim>\<open>user["roles"]\<close> for a list of strings; on any other row the model
  stops with \<open>PyException\<close>, which a row that passed the load never reaches.
\<close>

definition str_at :: "pydict \<Rightarrow> string \<Rightarrow> string option" where
  "str_at d k = (case map_of d k of Some (JStr s) \<Rightarrow> Some s | _ \<Rightarrow> None)"

fun strings :: "json list \<Rightarrow> string list option" where
  "strings [] = Some []"
| "strings (JStr s # xs) = (case strings xs of None \<Rightarrow> None | Some ss \<Rightarrow> Some (s # ss))"
| "strings (x # xs) = None"

definition names_at :: "pydict \<Rightarrow> string list option" where
  "names_at d = (case map_of d ''roles'' of Some (JList xs) \<Rightarrow> strings xs | _ \<Rightarrow> None)"

text \<open>
  The inner loop: each role name is looked up in turn and appended to \<^verbatim>\<open>roles\<close>; the
  first name without a role ends the import.
\<close>

fun resolve_roles :: "string list \<Rightarrow> role list \<Rightarrow> store \<Rightarrow> (error + role list) \<times> store" where
  "resolve_roles [] acc st = (Inr acc, st)"
| "resolve_roles (n # ns) acc st =
     (case sm_find_role n st of
        (None, st1) \<Rightarrow>
          (case sm_get_all_roles st1 of
             (valid_roles, st2) \<Rightarrow> (Inl (UnknownRole n valid_roles), st2))
      | (Some r, st1) \<Rightarrow> resolve_roles ns (acc @ [r]) st1)"

datatype outcome = Created string | Updated string

text \<open>
  The body of the outer loop for one row. The result of \<^verbatim>\<open>add_user\<close> is not read, and
  the password argument keeps its default, the empty string.
\<close>

definition import_record :: "pydict \<Rightarrow> store \<Rightarrow> (error + outcome) \<times> store" where
  "import_record d st =
     (case names_at d of
        None \<Rightarrow> (Inl (PyException ''roles''), st)
      | Some names \<Rightarrow>
          (case resolve_roles names [] st of
             (Inl e, st1) \<Rightarrow> (Inl e, st1)
           | (Inr rs, st1) \<Rightarrow>
               (case (str_at d ''email'', str_at d ''username'',
                      str_at d ''firstname'', str_at d ''lastname'') of
                  (Some em, Some un, Some fn, Some ln) \<Rightarrow>
                    (case sm_find_user None (Some em) st1 of
                       (Some (i, existing_user), st2) \<Rightarrow>
                         (if username existing_user \<noteq> un then (Inl (IdentityConflict em), st2)
                          else
                            (Inr (Updated em),
                             sm_update_user i
                               (modify_user i
                                  (\<lambda>x. x\<lparr>roles := rs, first_name := fn, last_name := ln\<rparr>) st2)))
                     | (None, st2) \<Rightarrow>
                         (case sm_add_user un fn ln em rs [] st2 of
                            (u, st3) \<Rightarrow> (Inr (Created em), st3)))
                | _ \<Rightarrow> (Inl (PyException ''key''), st1))))"

text \<open>The outer loop, with the two result lists \<^verbatim>\<open>users_created\<close> and \<^verbatim>\<open>users_updated\<close>.\<close>

fun import_loop ::
  "pydict list \<Rightarrow> string list \<times> string list \<Rightarrow> store
     \<Rightarrow> (error + string list \<times> string list) \<times> store" where
  "import_loop [] acc st = (Inr acc, st)"
| "import_loop (d # ds) (users_created, users_updated) st =
     (case import_record d st of
        (Inl e, st1) \<Rightarrow> (Inl e, st1)
      | (Inr (Created em), st1) \<Rightarrow> import_loop ds (users_created @ [em], users_updated) st1
      | (Inr (Updated em), st1) \<Rightarrow> import_loop ds (users_created, users_updated @ [em]) st1)"

text \<open>\<^verbatim>\<open>_import_users\<close>: the schema load of the whole list, then the loop.\<close>

definition import_users ::
  "validators \<Rightarrow> pydict list \<Rightarrow> store \<Rightarrow> (error + string list \<times> string list) \<times> store" where
  "import_users vl users_list st =
     (if UserSchema_load vl users_list \<noteq> [] then
        (Inl (ValidationError (UserSchema_load vl users_list)), st)
      else import_loop users_list ([], []) st)"

subsection \<open>Example data\<close>

text \<open>
  The concrete scenario of section 8 of the specification: the record of Ann Lee, a store
  without users, and the store after her import. The example validators accept an address
  that contains an at sign and no numeric text. \<open>store_locked\<close> is the store after
  her import when it rejects the deletion of its first user; \<open>example_console\<close> is a
  prompt at which the confirmation is mistyped.
\<close>

definition example_validators :: validators where
  "example_validators = \<lparr>email_ok = (\<lambda>s. CHR ''@'' \<in> set s), int_ok = (\<lambda>v. False)\<rparr>"

definition ann_row :: "string \<Rightarrow> string \<Rightarrow> string \<Rightarrow> string list \<Rightarrow> pydict" where
  "ann_row fn un em rs =
     [(''firstname'', JStr fn), (''lastname'', JStr ''Lee''), (''username'', JStr un),
      (''email'', JStr em), (''roles'', JList (map JStr rs))]"

definition ann :: pydict where
  "ann = ann_row ''Ann'' ''alee'' ''a@x.com'' [''Viewer'']"

definition alee :: user where
  "alee = \<lparr>user_id = 1, username = ''alee'', email = ''a@x.com'', first_name = ''Ann'',
            last_name = ''Lee'', roles = [''Viewer''], password = []\<rparr>"

definition store_of :: "user list \<Rightarrow> (call \<Rightarrow> bool) \<Rightarrow> store" where
  "store_of us rj =
     \<lparr>users = us, all_roles = [''Admin'', ''Viewer''], next_id = Suc (length us),
      rejects = rj, calls = []\<rparr>"

definition store_empty :: store where
  "store_empty = store_of [] (\<lambda>c. False)"

definition store_ann :: store where
  "store_ann = store_of [alee] (\<lambda>c. False)"

definition store_locked :: store where
  "store_locked = store_of [alee] (\<lambda>c. c = DelRegisterUser 0)"

definition args_of :: "string option \<Rightarrow> string option \<Rightarrow> string \<Rightarrow> args" where
  "args_of un em r =
     \<lparr>arg_username = un, arg_email = em, arg_role = r, arg_password = None,
      arg_use_random_password = True\<rparr>"

definition create_ann :: "string \<Rightarrow> string option \<Rightarrow> create_args" where
  "create_ann r pw =
     \<lparr>new_username = ''alee'', new_firstname = ''Ann'', new_lastname = ''Lee'',
      new_email = ''a@x.com'', new_role = r, new_password = pw,
      new_use_random_password = False\<rparr>"

definition example_console :: console where
  "example_console =
     \<lparr>random_choice = ''0123456789abcdef'', entry = ''secret'', confirmation = ''secrte''\<rparr>"

text \<open>
  Stores that the commands themselves produce, and a store with a user whose user name is
  the empty string, which the schema lets an import create.
\<close>

definition store_stripped :: store where
  "store_stripped = snd (remove_role (args_of (Some ''alee'') None ''Viewer'') store_ann)"

definition create_nobody :: create_args where
  "create_nobody = (create_ann ''Viewer'' (Some ''pw''))\<lparr>new_email := ''nobody''\<rparr>"

definition store_nobody :: store where
  "store_nobody = snd (users_create create_nobody example_console store_empty)"

definition create_unnamed :: create_args where
  "create_unnamed = (create_ann ''Viewer'' (Some ''pw''))\<lparr>new_username := []\<rparr>"

definition store_unnamed :: store where
  "store_unnamed = store_of [alee\<lparr>username := []\<rparr>] (\<lambda>c. False)"

section \<open>The schema\<close>

lemma check_field_required_nil:
  "check_field True chk d name = [] \<longleftrightarrow>
     (\<exists>v. map_of d name = Some v \<and> v \<noteq> JNull \<and> chk v = None)"
  by (auto simp: check_field_def split: option.splits json.splits)

lemma check_field_optional_nil:
  "check_field False chk d name = [] \<longleftrightarrow>
     (map_of d name = None \<or> (\<exists>v. map_of d name = Some v \<and> v \<noteq> JNull \<and> chk v = None))"
  by (auto simp: check_field_def split: option.splits json.splits)

lemma Str_field_None: "Str_field v = None \<longleftrightarrow> (\<exists>s. v = JStr s)"
  by (auto simp: Str_field_def split: json.splits)

lemma Email_field_None: "Email_field vl v = None \<longleftrightarrow> (\<exists>s. v = JStr s \<and> email_ok vl s)"
  by (auto simp: Email_field_def split: json.splits)

lemma item_errors_nil: "item_errors i xs = [] \<longleftrightarrow> (\<exists>ns. xs = map JStr ns)"
  by (induction i xs rule: item_errors.induct) (auto simp: Cons_eq_map_conv)

lemma List_field_None: "List_field v = None \<longleftrightarrow> (\<exists>ns. v = JList (map JStr ns) \<and> ns \<noteq> [])"
  by (cases v) (auto simp: List_field_def item_errors_nil)

lemma unknown_fields_nil: "unknown_fields d = [] \<longleftrightarrow> fst ` set d \<subseteq> set declared_fields"
  by (auto simp: unknown_fields_def filter_empty_conv)

lemma UserSchema_row_nil:
  "UserSchema_row vl d = [] \<longleftrightarrow>
     (\<exists>s. map_of d ''firstname'' = Some (JStr s))
     \<and> (\<exists>s. map_of d ''lastname'' = Some (JStr s))
     \<and> (\<exists>s. map_of d ''username'' = Some (JStr s))
     \<and> (\<exists>s. map_of d ''email'' = Some (JStr s) \<and> email_ok vl s)
     \<and> (\<exists>ns. map_of d ''roles'' = Some (JList (map JStr ns)) \<and> ns \<noteq> [])
     \<and> (map_of d ''id'' = None
          \<or> (\<exists>v. map_of d ''id'' = Some v \<and> v \<noteq> JNull \<and> Int_field vl v = None))
     \<and> fst ` set d \<subseteq> set declared_fields"
  unfolding UserSchema_row_def append_is_Nil_conv check_field_required_nil
    check_field_optional_nil Str_field_None Email_field_None List_field_None unknown_fields_nil
  by auto

text \<open>
  Claim C6, as stated: the schema accepts a row exactly when first name, last name and
  user name are present and non-empty strings, the email is a valid address and the roles
  are a non-empty list of strings; in particular a row with an empty first name is
  rejected. This fails on the code: \<^verbatim>\<open>fields.Str(required=True)\<close> asks for the key
  and for a string, not for a non-empty one. The row of Ann Lee with the first name
  \<^verbatim>\<open>""\<close> is accepted by \<open>UserSchema_row\<close> although the specification's reading
  \<open>spec_record_ok\<close> refuses it.
\<close>

theorem UserSchema_accepts_empty_firstname:
  "UserSchema_row example_validators (ann_row [] ''alee'' ''a@x.com'' [''Viewer'']) = []
   \<and> \<not> spec_record_ok example_validators (ann_row [] ''alee'' ''a@x.com'' [''Viewer''])"
  by (simp add: UserSchema_row_def check_field_def ann_row_def Str_field_def Email_field_def
      List_field_def unknown_fields_def declared_fields_def example_validators_def
      spec_record_ok_def spec_nonempty_str_def)

text \<open>
  Claim C6, amended: the schema accepts a row exactly when first name, last name and user
  name are present and are strings (the empty string included), the email is a string that
  the address validator accepts, the roles are a non-empty list of strings, the optional
  \<^verbatim>\<open>id\<close> is absent or a valid integer, and the row has no key outside the schema.
\<close>

theorem UserSchema_accepts_iff:
  "UserSchema_row vl d = [] \<longleftrightarrow>
     (\<exists>s. map_of d ''firstname'' = Some (JStr s))
     \<and> (\<exists>s. map_of d ''lastname'' = Some (JStr s))
     \<and> (\<exists>s. map_of d ''username'' = Some (JStr s))
     \<and> (\<exists>s. map_of d ''email'' = Some (JStr s) \<and> email_ok vl s)
     \<and> (\<exists>ns. map_of d ''roles'' = Some (JList (map JStr ns)) \<and> ns \<noteq> [])
     \<and> (map_of d ''id'' = None
          \<or> (\<exists>v. map_of d ''id'' = Some v \<and> v \<noteq> JNull \<and> Int_field vl v = None))
     \<and> fst ` set d \<subseteq> set declared_fields"
  by (rule UserSchema_row_nil)

theorem UserSchema_accepts_iff_witness:
  "UserSchema_row example_validators (ann_row [] ''alee'' ''a@x.com'' [''Viewer'', ''Admin'']) = []"
proof -
  have "[''Viewer'', ''Admin''] \<noteq> ([]::string list)" by simp
  then have "\<exists>ns. JList (map JStr [''Viewer'', ''Admin'']) = JList (map JStr ns) \<and> ns \<noteq> []"
    by blast
  then show ?thesis
    using UserSchema_accepts_iff [of example_validators
        "ann_row [] ''alee'' ''a@x.com'' [''Viewer'', ''Admin'']"]
    by (simp add: ann_row_def example_validators_def declared_fields_def)
qed

section \<open>Single-record commands\<close>

lemma locate_Some: "locate P xs = Some (i, x) \<Longrightarrow> i < length xs \<and> xs ! i = x \<and> P x"
  by (induction xs arbitrary: i) (auto split: if_splits option.splits)

lemma locate_None: "locate P xs = None \<longleftrightarrow> (\<forall>x\<in>set xs. \<not> P x)"
  by (induction xs) (auto split: option.splits)

lemma lookup_user_Some:
  "lookup_user un em us = Some (i, u) \<Longrightarrow> i < length us \<and> us ! i = u"
  by (auto simp: lookup_user_def split: option.splits if_splits dest: locate_Some)

lemma find_user_missing:
  "\<not> truthy (arg_username a) \<Longrightarrow> \<not> truthy (arg_email a) \<Longrightarrow>
   find_user a st = (Inl MissingArgs, st)"
  by (simp add: find_user_def)

lemma find_user_conflicting:
  "truthy (arg_username a) \<Longrightarrow> truthy (arg_email a) \<Longrightarrow>
   find_user a st = (Inl ConflictingArgs, st)"
  by (simp add: find_user_def)

lemma find_user_absent:
  "truthy (arg_username a) \<noteq> truthy (arg_email a) \<Longrightarrow>
   lookup_user (arg_username a) (arg_email a) (users st) = None \<Longrightarrow>
   find_user a st
     = (Inl (NotFound (lookup_key a)),
        st\<lparr>calls := calls st @ [FindUser (arg_username a) (arg_email a)]\<rparr>)"
  by (auto simp: find_user_def sm_find_user_def log_def)

lemma find_user_found:
  "fst (find_user a st) = Inr (i, u) \<Longrightarrow>
   find_user a st
     = (Inr (i, u), st\<lparr>calls := calls st @ [FindUser (arg_username a) (arg_email a)]\<rparr>)
   \<and> lookup_user (arg_username a) (arg_email a) (users st) = Some (i, u)"
  by (auto simp: find_user_def sm_find_user_def log_def split: if_splits option.splits)

text \<open>
  Claim C10: every single-record lookup (delete, reset-password, add-role, remove-role)
  requires exactly one of user name and email. An argument is supplied when Python takes
  it for true, which is the test \<^verbatim>\<open>_find_user\<close> makes. With neither or both supplied
  the command fails and returns the store as it received it, call log included: the store
  was not accessed. With exactly one supplied and no matching user the command fails with
  \<open>NotFound\<close>, and the store differs from the one received only by the logged lookup.
\<close>

theorem lookup_guard:
  "(\<not> truthy (arg_username a) \<and> \<not> truthy (arg_email a) \<longrightarrow>
      users_delete a st = (Inl MissingArgs, st)
      \<and> user_reset_password a con st = (Inl MissingArgs, st)
      \<and> users_manage_role a remove st = (Inl MissingArgs, st))
   \<and> (truthy (arg_username a) \<and> truthy (arg_email a) \<longrightarrow>
      users_delete a st = (Inl ConflictingArgs, st)
      \<and> user_reset_password a con st = (Inl ConflictingArgs, st)
      \<and> users_manage_role a remove st = (Inl ConflictingArgs, st))
   \<and> (truthy (arg_username a) \<noteq> truthy (arg_email a)
       \<and> lookup_user (arg_username a) (arg_email a) (users st) = None \<longrightarrow>
      users_delete a st
        = (Inl (NotFound (lookup_key a)),
           st\<lparr>calls := calls st @ [FindUser (arg_username a) (arg_email a)]\<rparr>)
      \<and> user_reset_password a con st
        = (Inl (NotFound (lookup_key a)),
           st\<lparr>calls := calls st @ [FindUser (arg_username a) (arg_email a)]\<rparr>)
      \<and> users_manage_role a remove st
        = (Inl (NotFound (lookup_key a)),
           st\<lparr>calls := calls st @ [FindUser (arg_username a) (arg_email a)]\<rparr>))"
  by (simp add: users_delete_def user_reset_password_def users_manage_role_def
      find_user_missing find_user_conflicting find_user_absent)

theorem lookup_guard_witness:
  "users_delete (args_of None (Some []) ''Admin'') store_ann = (Inl MissingArgs, store_ann)
   \<and> user_reset_password (args_of (Some ''alee'') (Some ''a@x.com'') ''Admin'') example_console
        store_ann = (Inl ConflictingArgs, store_ann)
   \<and> fst (users_manage_role (args_of (Some ''bob'') None ''Admin'') True store_ann)
        = Inl (NotFound ''bob'')
   \<and> users (snd (users_manage_role (args_of (Some ''bob'') None ''Admin'') True store_ann))
        = users store_ann"
  using lookup_guard [of "args_of None (Some []) ''Admin''" store_ann example_console False]
    lookup_guard [of "args_of (Some ''alee'') (Some ''a@x.com'') ''Admin''" store_ann
      example_console False]
    lookup_guard [of "args_of (Some ''bob'') None ''Admin''" store_ann example_console True]
  by (simp add: args_of_def truthy_def lookup_key_def lookup_user_def store_ann_def
      store_of_def alee_def)

text \<open>
  Claim C7: for a user that the lookup finds and a role name that resolves, adding the
  role fails with \<open>AlreadyMember\<close> when the user has it, and otherwise appends that one
  role to the user's roles and persists the user (the call \<open>UpdateUser\<close>); removing
  the role fails with \<open>NotMember\<close> when the user lacks it, and otherwise removes it
  and persists the user. On the two failure branches the users of the store are unchanged.
\<close>

theorem manage_role_membership:
  assumes "fst (find_user a st) = Inr (i, u)" and "arg_role a \<in> set (all_roles st)"
  shows "(arg_role a \<in> set (roles u) \<longrightarrow>
            add_role a st
              = (Inl (AlreadyMember (username u) (arg_role a)),
                 st\<lparr>calls := calls st @ [FindUser (arg_username a) (arg_email a),
                                         FindRole (arg_role a)]\<rparr>))
       \<and> (arg_role a \<notin> set (roles u) \<longrightarrow>
            add_role a st
              = (Inr (),
                 st\<lparr>users := (users st)[i := u\<lparr>roles := roles u @ [arg_role a]\<rparr>],
                    calls := calls st @ [FindUser (arg_username a) (arg_email a),
                                         FindRole (arg_role a), UpdateUser i]\<rparr>))
       \<and> (arg_role a \<notin> set (roles u) \<longrightarrow>
            remove_role a st
              = (Inl (NotMember (username u) (arg_role a)),
                 st\<lparr>calls := calls st @ [FindUser (arg_username a) (arg_email a),
                                         FindRole (arg_role a)]\<rparr>))
       \<and> (arg_role a \<in> set (roles u) \<longrightarrow>
            remove_role a st
              = (Inr (),
                 st\<lparr>users := (users st)
                              [i := u\<lparr>roles := filter (\<lambda>q. q \<noteq> arg_role a) (roles u)\<rparr>],
                    calls := calls st @ [FindUser (arg_username a) (arg_email a),
                                         FindRole (arg_role a), UpdateUser i]\<rparr>))
       \<and> i < length (users st) \<and> users st ! i = u"
proof -
  from assms(1) have f: "find_user a st
      = (Inr (i, u), st\<lparr>calls := calls st @ [FindUser (arg_username a) (arg_email a)]\<rparr>)"
    and l: "lookup_user (arg_username a) (arg_email a) (users st) = Some (i, u)"
    using find_user_found by blast+
  from l have iu: "i < length (users st)" "users st ! i = u"
    using lookup_user_Some by blast+
  show ?thesis
    using assms(2) iu
    by (simp add: add_role_def remove_role_def users_manage_role_def f sm_find_role_def log_def
        sm_update_user_def modify_user_def)
qed

theorem manage_role_membership_witness:
  "fst (add_role (args_of (Some ''alee'') None ''Viewer'') store_ann)
     = Inl (AlreadyMember ''alee'' ''Viewer'')
   \<and> users (snd (add_role (args_of (Some ''alee'') None ''Admin'') store_ann))
     = [alee\<lparr>roles := [''Viewer'', ''Admin'']\<rparr>]
   \<and> fst (remove_role (args_of (Some ''alee'') None ''Admin'') store_ann)
     = Inl (NotMember ''alee'' ''Admin'')
   \<and> users (snd (remove_role (args_of (Some ''alee'') None ''Viewer'') store_ann))
     = [alee\<lparr>roles := []\<rparr>]"
proof -
  have f: "fst (find_user (args_of (Some ''alee'') None r) store_ann) = Inr (0, alee)" for r
    by (simp add: find_user_def sm_find_user_def lookup_user_def truthy_def args_of_def
        store_ann_def store_of_def alee_def)
  have v: "arg_role (args_of (Some ''alee'') None ''Viewer'') \<in> set (all_roles store_ann)"
    and d: "arg_role (args_of (Some ''alee'') None ''Admin'') \<in> set (all_roles store_ann)"
    by (simp_all add: args_of_def store_ann_def store_of_def)
  show ?thesis
    using manage_role_membership [OF f v] manage_role_membership [OF f d]
    by (simp add: args_of_def store_ann_def store_of_def alee_def)
qed

text \<open>
  Claim C8: deleting a user that the lookup finds first empties the user's roles and then
  asks the store to delete the user. When the store rejects the request the command fails
  with \<open>DeleteFailed\<close> and the emptied roles stay: the user is still in the store, at the
  same position, with no role. When the store accepts, the user is gone.
\<close>

theorem delete_not_atomic:
  assumes "fst (find_user a st) = Inr (i, u)"
  shows "(rejects st (DelRegisterUser i) \<longrightarrow>
            users_delete a st
              = (Inl DeleteFailed,
                 st\<lparr>users := (users st)[i := u\<lparr>roles := []\<rparr>],
                    calls := calls st @ [FindUser (arg_username a) (arg_email a),
                                         DelRegisterUser i]\<rparr>))
       \<and> (\<not> rejects st (DelRegisterUser i) \<longrightarrow>
            users_delete a st
              = (Inr (),
                 st\<lparr>users := take i (users st) @ drop (Suc i) (users st),
                    calls := calls st @ [FindUser (arg_username a) (arg_email a),
                                         DelRegisterUser i]\<rparr>))
       \<and> i < length (users st) \<and> users st ! i = u"
proof -
  from assms(1) have f: "find_user a st
      = (Inr (i, u), st\<lparr>calls := calls st @ [FindUser (arg_username a) (arg_email a)]\<rparr>)"
    and l: "lookup_user (arg_username a) (arg_email a) (users st) = Some (i, u)"
    using find_user_found by blast+
  from l have iu: "i < length (users st)" "users st ! i = u"
    using lookup_user_Some by blast+
  show ?thesis
    using iu
    by (simp add: users_delete_def f sm_del_register_user_def log_def modify_user_def)
qed

theorem delete_not_atomic_witness:
  "fst (users_delete (args_of None (Some ''a@x.com'') []) store_locked) = Inl DeleteFailed
   \<and> users (snd (users_delete (args_of None (Some ''a@x.com'') []) store_locked))
     = [alee\<lparr>roles := []\<rparr>]
   \<and> fst (users_delete (args_of None (Some ''a@x.com'') []) store_ann) = Inr ()
   \<and> users (snd (users_delete (args_of None (Some ''a@x.com'') []) store_ann)) = []"
proof -
  have f: "fst (find_user (args_of None (Some ''a@x.com'') []) store_locked) = Inr (0, alee)"
    and g: "fst (find_user (args_of None (Some ''a@x.com'') []) store_ann) = Inr (0, alee)"
    by (simp_all add: find_user_def sm_find_user_def lookup_user_def truthy_def args_of_def
        store_locked_def store_ann_def store_of_def alee_def)
  show ?thesis
    using delete_not_atomic [OF f] delete_not_atomic [OF g]
    by (simp add: store_locked_def store_ann_def store_of_def)
qed

lemma create_password_mismatch:
  "\<not> use_random \<Longrightarrow> \<not> truthy pw \<Longrightarrow> entry con \<noteq> confirmation con \<Longrightarrow>
   create_password use_random pw con = Inl PasswordMismatch"
  by (auto simp: create_password_def truthy_def split: option.splits)

lemma lookup_username_present:
  assumes "n \<noteq> []" and "n \<in> set (map username us)"
  shows "\<exists>x. lookup_user (Some n) None us = Some x"
proof -
  from assms(2) have "locate (\<lambda>u. username u = n) us \<noteq> None"
    by (auto simp: locate_None)
  with assms(1) show ?thesis
    by (auto simp: lookup_user_def)
qed

text \<open>
  Claim C9, as stated: every create request whose user name names an existing user returns
  normally, and the only check before the one on the user name is the one on the role.
  This fails on the code in two ways. Between the two checks \<^verbatim>\<open>_create_password\<close>
  runs, and with no password argument it fails when the two entries typed at the prompt
  differ: the first request below has a valid role and the user name of Ann Lee, who is in
  the store, and fails. And a lookup by the empty user name finds nobody: the second
  request has a valid role, a password and the empty user name, which names a user of the
  store; the command goes on to \<^verbatim>\<open>add_user\<close>, which the store refuses, and fails.
\<close>

theorem create_existing_username_fails:
  "new_role (create_ann ''Viewer'' None) \<in> set (all_roles store_ann)
   \<and> new_username (create_ann ''Viewer'' None) \<in> set (map username (users store_ann))
   \<and> users_create (create_ann ''Viewer'' None) example_console store_ann
       = (Inl PasswordMismatch, store_ann\<lparr>calls := [FindRole ''Viewer'']\<rparr>)
   \<and> new_role create_unnamed \<in> set (all_roles store_unnamed)
   \<and> new_username create_unnamed \<in> set (map username (users store_unnamed))
   \<and> create_password (new_use_random_password create_unnamed) (new_password create_unnamed)
         example_console = Inr ''pw''
   \<and> users_create create_unnamed example_console store_unnamed
       = (Inl CreateFailed,
          store_unnamed\<lparr>calls := [FindRole ''Viewer'', FindUser (Some []) None,
                                  AddUser [] ''a@x.com'']\<rparr>)"
  by (simp add: users_create_def create_password_def sm_find_role_def sm_find_user_def
      sm_add_user_def log_def lookup_user_def create_ann_def create_unnamed_def
      example_console_def store_ann_def store_unnamed_def store_of_def alee_def)

text \<open>
  Claim C9, amended: a create request whose role resolves, for which
  \<^verbatim>\<open>_create_password\<close> yields a password and whose user name is not empty and is the
  user name of a user of the store returns normally; the store it returns differs from the
  one received only by the two logged lookups, so no user is added and nothing else is
  changed. The role is checked first: when it does not resolve the command fails with the
  role error, whatever the user name, and the lookup by user name is not made.
\<close>

theorem create_existing_username:
  "(new_role a \<in> set (all_roles st)
      \<and> create_password (new_use_random_password a) (new_password a) con = Inr pw
      \<and> new_username a \<noteq> [] \<and> new_username a \<in> set (map username (users st)) \<longrightarrow>
      users_create a con st
        = (Inr (),
           st\<lparr>calls := calls st @ [FindRole (new_role a),
                                   FindUser (Some (new_username a)) None]\<rparr>))
   \<and> (new_role a \<notin> set (all_roles st) \<longrightarrow>
      users_create a con st
        = (Inl (UnknownRole (new_role a) (all_roles st)),
           st\<lparr>calls := calls st @ [FindRole (new_role a), GetAllRoles]\<rparr>))"
proof (intro conjI impI)
  assume h: "new_role a \<in> set (all_roles st)
      \<and> create_password (new_use_random_password a) (new_password a) con = Inr pw
      \<and> new_username a \<noteq> [] \<and> new_username a \<in> set (map username (users st))"
  then obtain x where "lookup_user (Some (new_username a)) None (users st) = Some x"
    using lookup_username_present by blast
  with h show "users_create a con st
        = (Inr (),
           st\<lparr>calls := calls st @ [FindRole (new_role a),
                                   FindUser (Some (new_username a)) None]\<rparr>)"
    by (simp add: users_create_def sm_find_role_def sm_find_user_def log_def)
next
  assume "new_role a \<notin> set (all_roles st)"
  then show "users_create a con st
        = (Inl (UnknownRole (new_role a) (all_roles st)),
           st\<lparr>calls := calls st @ [FindRole (new_role a), GetAllRoles]\<rparr>)"
    by (simp add: users_create_def sm_find_role_def sm_get_all_roles_def log_def)
qed

theorem create_existing_username_witness:
  "fst (users_create (create_ann ''Viewer'' (Some ''pw'')) example_console store_ann) = Inr ()
   \<and> users (snd (users_create (create_ann ''Viewer'' (Some ''pw'')) example_console store_ann))
     = [alee]
   \<and> fst (users_create (create_ann ''Guest'' (Some ''pw'')) example_console store_ann)
     = Inl (UnknownRole ''Guest'' [''Admin'', ''Viewer''])"
  using create_existing_username [of "create_ann ''Viewer'' (Some ''pw'')" store_ann
      example_console "''pw''"]
    create_existing_username [of "create_ann ''Guest'' (Some ''pw'')" store_ann
      example_console "''pw''"]
  by (simp add: create_ann_def create_password_def store_ann_def store_of_def alee_def)

section \<open>Import: the validation gate\<close>

lemma map_of_filter_enumerate:
  "map_of (filter (\<lambda>(i, e). e \<noteq> []) (enumerate n xs)) i
     = (if n \<le> i \<and> i < n + length xs \<and> xs ! (i - n) \<noteq> [] then Some (xs ! (i - n)) else None)"
proof (induction xs arbitrary: n)
  case Nil
  then show ?case by simp
next
  case (Cons x xs)
  show ?case
  proof (cases "i = n")
    case True
    then show ?thesis using Cons.IH [of "Suc n"] by simp
  next
    case False
    then show ?thesis using Cons.IH [of "Suc n"] by (auto simp: nth_Cons' Suc_diff_le)
  qed
qed

lemma UserSchema_load_lookup:
  "i < length batch \<Longrightarrow>
   map_of (UserSchema_load vl batch) i
     = (if UserSchema_row vl (batch ! i) = [] then None else Some (UserSchema_row vl (batch ! i)))"
  by (simp add: UserSchema_load_def map_of_filter_enumerate)

lemma UserSchema_load_distinct: "distinct (map fst (UserSchema_load vl batch))"
  unfolding UserSchema_load_def
  by (rule distinct_map_filter) (simp add: enumerate_eq_zip)

lemma filter_enumerate_nil:
  "filter (\<lambda>(i, e). e \<noteq> []) (enumerate n xs) = [] \<longleftrightarrow> (\<forall>x\<in>set xs. x = [])"
  by (induction xs arbitrary: n) auto

lemma UserSchema_load_nil:
  "UserSchema_load vl batch = [] \<longleftrightarrow> (\<forall>d\<in>set batch. UserSchema_row vl d = [])"
  by (simp add: UserSchema_load_def filter_enumerate_nil)

text \<open>
  Claim C1: when at least one row of the batch violates the schema, the import fails with
  one report and returns the store exactly as it received it, call log included: no role
  was resolved, no user looked up, created or updated. The report has one entry for each
  violating row and none for the others; an entry is keyed by the row's index and holds
  the row's errors keyed by field.
\<close>

theorem validation_gate:
  assumes "\<exists>d\<in>set batch. UserSchema_row vl d \<noteq> []"
  shows "import_users vl batch st = (Inl (ValidationError (UserSchema_load vl batch)), st)
       \<and> (\<forall>i<length batch.
            map_of (UserSchema_load vl batch) i
              = (if UserSchema_row vl (batch ! i) = [] then None
                 else Some (UserSchema_row vl (batch ! i))))
       \<and> distinct (map fst (UserSchema_load vl batch))"
proof -
  from assms have "UserSchema_load vl batch \<noteq> []"
    by (simp add: UserSchema_load_nil)
  then show ?thesis
    by (simp add: import_users_def UserSchema_load_lookup UserSchema_load_distinct)
qed

theorem validation_gate_witness:
  "import_users example_validators [ann, ann_row ''Ann'' ''alee'' ''nobody'' []] store_empty
     = (Inl (ValidationError
              [(1, [(''email'', Messages [''Not a valid email address.'']),
                    (''roles'', Messages [''Shorter than minimum length 1.''])])]),
        store_empty)"
proof -
  have r: "UserSchema_row example_validators (ann_row ''Ann'' ''alee'' ''nobody'' [])
      = [(''email'', Messages [''Not a valid email address.'']),
         (''roles'', Messages [''Shorter than minimum length 1.''])]"
    by (simp add: UserSchema_row_def check_field_def ann_row_def Str_field_def Email_field_def
        List_field_def unknown_fields_def declared_fields_def example_validators_def)
  have a: "UserSchema_row example_validators ann = []"
    by (simp add: UserSchema_row_def check_field_def ann_def ann_row_def Str_field_def
        Email_field_def List_field_def unknown_fields_def declared_fields_def
        example_validators_def)
  have h: "\<exists>d\<in>set [ann, ann_row ''Ann'' ''alee'' ''nobody'' []].
             UserSchema_row example_validators d \<noteq> []"
    using r by simp
  show ?thesis
    using validation_gate [OF h, of store_empty]
    by (simp add: UserSchema_load_def r a)
qed

section \<open>Import: the loop\<close>

lemma import_loop_append:
  "import_loop (xs @ ys) acc st
     = (case import_loop xs acc st of
          (Inl e, st1) \<Rightarrow> (Inl e, st1)
        | (Inr acc1, st1) \<Rightarrow> import_loop ys acc1 st1)"
proof (induction xs acc st rule: import_loop.induct)
  case (1 acc st)
  then show ?case by simp
next
  case (2 d ds users_created users_updated st)
  then show ?case
    by (simp split: prod.splits sum.splits outcome.splits)
qed

text \<open>
  A batch that passed the schema, cut at one row: when the rows before it were imported
  without error, the import continues with this row on the store they left.
\<close>

lemma import_users_split:
  assumes "UserSchema_load vl (pre @ d # post) = []"
    and "import_loop pre ([], []) st = (Inr (cr, up), st1)"
  shows "import_users vl (pre @ d # post) st
     = (case import_record d st1 of
          (Inl e, st2) \<Rightarrow> (Inl e, st2)
        | (Inr (Created em), st2) \<Rightarrow> import_loop post (cr @ [em], up) st2
        | (Inr (Updated em), st2) \<Rightarrow> import_loop post (cr, up @ [em]) st2)"
  using assms by (simp add: import_users_def import_loop_append)

subsection \<open>Role resolution\<close>

lemma resolve_roles_ok:
  "set ns \<subseteq> set (all_roles st) \<Longrightarrow>
   resolve_roles ns acc st = (Inr (acc @ ns), st\<lparr>calls := calls st @ map FindRole ns\<rparr>)"
  by (induction ns arbitrary: acc st) (simp_all add: sm_find_role_def log_def)

lemma resolve_roles_unknown:
  "\<not> set ns \<subseteq> set (all_roles st) \<Longrightarrow>
   resolve_roles ns acc st
     = (Inl (UnknownRole (hd (dropWhile (\<lambda>n. n \<in> set (all_roles st)) ns)) (all_roles st)),
        st\<lparr>calls := calls st
               @ map FindRole (takeWhile (\<lambda>n. n \<in> set (all_roles st)) ns)
               @ [FindRole (hd (dropWhile (\<lambda>n. n \<in> set (all_roles st)) ns)), GetAllRoles]\<rparr>)"
  by (induction ns arbitrary: acc st)
     (simp_all add: sm_find_role_def sm_get_all_roles_def log_def)

lemma first_unknown:
  "\<not> set ns \<subseteq> A \<Longrightarrow>
   hd (dropWhile (\<lambda>n. n \<in> A) ns) \<in> set ns \<and> hd (dropWhile (\<lambda>n. n \<in> A) ns) \<notin> A"
  by (induction ns) auto

lemma resolve_roles_all_roles: "all_roles (snd (resolve_roles ns acc st)) = all_roles st"
  by (induction ns arbitrary: acc st)
     (simp_all add: sm_find_role_def sm_get_all_roles_def log_def)

subsection \<open>One row\<close>

lemma strings_map_JStr: "strings (map JStr ns) = Some ns"
  by (induction ns) simp_all

text \<open>A row that passed the schema has the five keys the loop reads, with the types it needs.\<close>

lemma valid_row_fields:
  assumes "UserSchema_row vl d = []"
  shows "\<exists>em un fn ln ns. str_at d ''email'' = Some em \<and> str_at d ''username'' = Some un
           \<and> str_at d ''firstname'' = Some fn \<and> str_at d ''lastname'' = Some ln
           \<and> names_at d = Some ns \<and> ns \<noteq> [] \<and> email_ok vl em"
  using assms unfolding UserSchema_row_nil
  by (auto simp: str_at_def names_at_def strings_map_JStr)

lemma import_record_unknown_role:
  assumes "names_at d = Some ns" and "\<not> set ns \<subseteq> set (all_roles st)"
  shows "import_record d st
     = (Inl (UnknownRole (hd (dropWhile (\<lambda>n. n \<in> set (all_roles st)) ns)) (all_roles st)),
        st\<lparr>calls := calls st
               @ map FindRole (takeWhile (\<lambda>n. n \<in> set (all_roles st)) ns)
               @ [FindRole (hd (dropWhile (\<lambda>n. n \<in> set (all_roles st)) ns)), GetAllRoles]\<rparr>)"
  using assms by (simp add: import_record_def resolve_roles_unknown)

lemma import_record_conflict:
  assumes "names_at d = Some ns" and "set ns \<subseteq> set (all_roles st)"
    and "str_at d ''email'' = Some em" and "str_at d ''username'' = Some un"
    and "str_at d ''firstname'' = Some fn" and "str_at d ''lastname'' = Some ln"
    and "lookup_user None (Some em) (users st) = Some (i, u)" and "username u \<noteq> un"
  shows "import_record d st
     = (Inl (IdentityConflict em),
        st\<lparr>calls := calls st @ map FindRole ns @ [FindUser None (Some em)]\<rparr>)"
  using assms by (simp add: import_record_def resolve_roles_ok sm_find_user_def log_def)

lemma import_record_update:
  assumes "names_at d = Some ns" and "set ns \<subseteq> set (all_roles st)"
    and "str_at d ''email'' = Some em" and "str_at d ''username'' = Some un"
    and "str_at d ''firstname'' = Some fn" and "str_at d ''lastname'' = Some ln"
    and "lookup_user None (Some em) (users st) = Some (i, u)" and "username u = un"
  shows "import_record d st
     = (Inr (Updated em),
        st\<lparr>users := (users st)[i := u\<lparr>roles := ns, first_name := fn, last_name := ln\<rparr>],
           calls := calls st @ map FindRole ns @ [FindUser None (Some em), UpdateUser i]\<rparr>)"
proof -
  from assms(7) have "i < length (users st)" "users st ! i = u"
    using lookup_user_Some by blast+
  then show ?thesis
    using assms
    by (simp add: import_record_def resolve_roles_ok sm_find_user_def log_def
        sm_update_user_def modify_user_def)
qed

lemma lookup_email_absent:
  "em \<notin> set (map email us) \<Longrightarrow> lookup_user None (Some em) us = None"
  by (auto simp: lookup_user_def locate_None)

lemma import_record_create:
  assumes "names_at d = Some ns" and "set ns \<subseteq> set (all_roles st)"
    and "str_at d ''email'' = Some em" and "str_at d ''username'' = Some un"
    and "str_at d ''firstname'' = Some fn" and "str_at d ''lastname'' = Some ln"
    and "em \<notin> set (map email (users st))"
    and "un \<notin> set (map username (users st))" and "\<not> rejects st (AddUser un em)"
  shows "import_record d st
     = (Inr (Created em),
        st\<lparr>users := users st
                  @ [\<lparr>user_id = next_id st, username = un, email = em, first_name = fn,
                      last_name = ln, roles = ns, password = []\<rparr>],
           next_id := Suc (next_id st),
           calls := calls st @ map FindRole ns @ [FindUser None (Some em), AddUser un em]\<rparr>)"
  using assms
  by (simp add: import_record_def resolve_roles_ok sm_find_user_def log_def
      lookup_email_absent sm_add_user_def Let_def)

lemma resolve_roles_error:
  "resolve_roles ns acc st = (Inl e, st1) \<Longrightarrow> \<exists>n rs. e = UnknownRole n rs"
  by (induction ns arbitrary: acc st)
     (auto simp: sm_find_role_def sm_get_all_roles_def split: if_splits)

text \<open>On a row that passed the schema the loop body never stops for a missing or ill-typed key.\<close>

lemma import_record_no_PyException:
  assumes "UserSchema_row vl d = []"
  shows "fst (import_record d st) \<noteq> Inl (PyException s)"
proof -
  from valid_row_fields [OF assms] obtain em un fn ln ns
    where f: "str_at d ''email'' = Some em" "str_at d ''username'' = Some un"
      "str_at d ''firstname'' = Some fn" "str_at d ''lastname'' = Some ln"
      "names_at d = Some ns"
    by blast
  show ?thesis
  proof (cases "resolve_roles ns [] st")
    case (Pair r st1)
    show ?thesis
    proof (cases r)
      case (Inl e)
      with Pair obtain n rs where "e = UnknownRole n rs"
        using resolve_roles_error by blast
      with Pair Inl f show ?thesis by (simp add: import_record_def)
    next
      case (Inr rs)
      with Pair f show ?thesis
        by (simp add: import_record_def sm_find_user_def split: option.splits prod.splits)
    qed
  qed
qed

text \<open>No command creates or deletes a role: the import leaves the roles of the store alone.\<close>

lemma import_record_all_roles: "all_roles (snd (import_record d st)) = all_roles st"
proof -
  have r: "resolve_roles ns [] st = (x, st1) \<Longrightarrow> all_roles st1 = all_roles st" for ns x st1
    using resolve_roles_all_roles [of ns "[]" st] by simp
  show ?thesis
    by (auto simp: import_record_def sm_find_user_def sm_update_user_def modify_user_def
        sm_add_user_def log_def Let_def dest: r split: option.splits prod.splits sum.splits)
qed

lemma import_loop_all_roles: "all_roles (snd (import_loop ds acc st)) = all_roles st"
proof (induction ds acc st rule: import_loop.induct)
  case (1 acc st)
  then show ?case by simp
next
  case (2 d ds users_created users_updated st)
  show ?case
  proof (cases "import_record d st")
    case (Pair r st1)
    then have a: "all_roles st1 = all_roles st"
      using import_record_all_roles [of d st] by simp
    show ?thesis
    proof (cases r)
      case (Inl e)
      with Pair a show ?thesis by simp
    next
      case (Inr oc)
      with Pair a 2 show ?thesis by (cases oc) simp_all
    qed
  qed
qed

subsection \<open>Exported rows\<close>

lemma snapshot_fields:
  "str_at (snapshot u) ''email'' = Some (email u)"
  "str_at (snapshot u) ''username'' = Some (username u)"
  "str_at (snapshot u) ''firstname'' = Some (first_name u)"
  "str_at (snapshot u) ''lastname'' = Some (last_name u)"
  "names_at (snapshot u) = Some (roles u)"
  by (simp_all add: snapshot_def str_at_def names_at_def strings_map_JStr)

lemma snapshot_valid:
  assumes "roles u \<noteq> []" and "email_ok vl (email u)"
  shows "UserSchema_row vl (snapshot u) = []"
proof -
  have "\<exists>ns. JList (map JStr (roles u)) = JList (map JStr ns) \<and> ns \<noteq> []"
    using assms(1) by blast
  then show ?thesis
    unfolding UserSchema_row_nil using assms(2)
    by (simp add: snapshot_def declared_fields_def Int_field_def)
qed

lemma locate_distinct:
  "distinct (map f xs) \<Longrightarrow> y \<in> set xs \<Longrightarrow> \<exists>i. locate (\<lambda>u. f u = f y) xs = Some (i, y)"
proof (induction xs)
  case Nil
  then show ?case by simp
next
  case (Cons x xs)
  show ?case
  proof (cases "f x = f y")
    case True
    with Cons.prems have "x = y" by (auto simp: image_iff)
    with True show ?thesis by simp
  next
    case False
    with Cons show ?thesis by auto
  qed
qed

text \<open>Importing the exported row of a user of the store is an update that changes no user.\<close>

lemma import_record_same:
  assumes "distinct (map email (users st))" and "y \<in> set (users st)"
    and "roles y \<noteq> []" and "set (roles y) \<subseteq> set (all_roles st)" and "email y \<noteq> []"
  shows "\<exists>cs. import_record (snapshot y) st
           = (Inr (Updated (email y)), st\<lparr>calls := calls st @ cs\<rparr>)"
proof -
  from locate_distinct [OF assms(1,2)] obtain i
    where "locate (\<lambda>u. email u = email y) (users st) = Some (i, y)" by blast
  with assms(5) have l: "lookup_user None (Some (email y)) (users st) = Some (i, y)"
    by (simp add: lookup_user_def)
  then have iy: "i < length (users st)" "users st ! i = y"
    using lookup_user_Some by blast+
  have same: "y\<lparr>roles := roles y, first_name := first_name y, last_name := last_name y\<rparr> = y"
    by simp
  have "(users st)[i := y] = users st"
    using iy by (simp add: list_update_same_conv)
  then have "import_record (snapshot y) st
      = (Inr (Updated (email y)),
         st\<lparr>calls := calls st
                @ (map FindRole (roles y) @ [FindUser None (Some (email y)), UpdateUser i])\<rparr>)"
    using import_record_update [OF snapshot_fields(5) assms(4) snapshot_fields(1,2,3,4) l refl]
    by (simp add: same)
  then show ?thesis by blast
qed

lemma reimport_loop:
  assumes "distinct (map email us)"
    and "\<forall>u\<in>set us. roles u \<noteq> [] \<and> set (roles u) \<subseteq> set R \<and> email u \<noteq> []"
  shows "set ys \<subseteq> set us \<Longrightarrow> users st = us \<Longrightarrow> all_roles st = R \<Longrightarrow>
     \<exists>cs. import_loop (map snapshot ys) (cr, up) st
            = (Inr (cr, up @ map email ys), st\<lparr>calls := calls st @ cs\<rparr>)"
proof (induction ys arbitrary: up st)
  case Nil
  have "st = st\<lparr>calls := calls st @ []\<rparr>" by simp
  then show ?case by (metis import_loop.simps(1) list.simps(8) append_Nil2)
next
  case (Cons y ys)
  from Cons.prems assms have y: "y \<in> set (users st)" "roles y \<noteq> []"
    "set (roles y) \<subseteq> set (all_roles st)" "email y \<noteq> []" "distinct (map email (users st))"
    by auto
  from import_record_same [OF y(5) y(1) y(2) y(3) y(4)] obtain cs
    where r: "import_record (snapshot y) st
                = (Inr (Updated (email y)), st\<lparr>calls := calls st @ cs\<rparr>)"
    by blast
  let ?st1 = "st\<lparr>calls := calls st @ cs\<rparr>"
  from Cons.prems have "set ys \<subseteq> set us" "users ?st1 = us" "all_roles ?st1 = R" by auto
  from Cons.IH [OF this, of "up @ [email y]"] obtain cs'
    where "import_loop (map snapshot ys) (cr, (up @ [email y])) ?st1
            = (Inr (cr, (up @ [email y]) @ map email ys), ?st1\<lparr>calls := calls ?st1 @ cs'\<rparr>)"
    by blast
  with r have "import_loop (map snapshot (y # ys)) (cr, up) st
            = (Inr (cr, up @ map email (y # ys)), st\<lparr>calls := calls st @ (cs @ cs')\<rparr>)"
    by simp
  then show ?case by blast
qed

lemma reimport_export:
  assumes "distinct (map email (users st))"
    and "\<forall>u\<in>set (users st). roles u \<noteq> [] \<and> set (roles u) \<subseteq> set (all_roles st)
           \<and> email u \<noteq> [] \<and> email_ok vl (email u)"
  shows "\<exists>cs. import_users vl (fst (users_export st)) (snd (users_export st))
           = (Inr ([], map email (users st)), st\<lparr>calls := calls st @ cs\<rparr>)"
proof -
  have e: "users_export st = (map snapshot (users st), st\<lparr>calls := calls st @ [GetAllUsers]\<rparr>)"
    by (simp add: users_export_def sm_get_all_users_def log_def)
  have v: "UserSchema_load vl (map snapshot (users st)) = []"
    using assms(2) by (simp add: UserSchema_load_nil snapshot_valid)
  let ?st0 = "st\<lparr>calls := calls st @ [GetAllUsers]\<rparr>"
  have "\<forall>u\<in>set (users st). roles u \<noteq> [] \<and> set (roles u) \<subseteq> set (all_roles st) \<and> email u \<noteq> []"
    using assms(2) by blast
  from reimport_loop [OF assms(1) this, of "users st" ?st0 "[]" "[]"] obtain cs
    where "import_loop (map snapshot (users st)) ([], []) ?st0
             = (Inr ([], map email (users st)), ?st0\<lparr>calls := calls ?st0 @ cs\<rparr>)"
    by auto
  then have "import_users vl (fst (users_export st)) (snd (users_export st))
           = (Inr ([], map email (users st)), st\<lparr>calls := calls st @ (GetAllUsers # cs)\<rparr>)"
    by (simp add: e import_users_def v)
  then show ?thesis by blast
qed

subsection \<open>The example rows\<close>

lemma ann_row_fields:
  "str_at (ann_row fn un em rs) ''email'' = Some em"
  "str_at (ann_row fn un em rs) ''username'' = Some un"
  "str_at (ann_row fn un em rs) ''firstname'' = Some fn"
  "str_at (ann_row fn un em rs) ''lastname'' = Some ''Lee''"
  "names_at (ann_row fn un em rs) = Some rs"
  by (simp_all add: ann_row_def str_at_def names_at_def strings_map_JStr)

lemma ann_row_valid:
  assumes "CHR ''@'' \<in> set em" and "rs \<noteq> []"
  shows "UserSchema_row example_validators (ann_row fn un em rs) = []"
proof -
  have "\<exists>ns. JList (map JStr rs) = JList (map JStr ns) \<and> ns \<noteq> []"
    using assms(2) by blast
  then show ?thesis
    unfolding UserSchema_row_nil using assms(1)
    by (simp add: ann_row_def declared_fields_def example_validators_def)
qed

section \<open>Import: what one row does\<close>

text \<open>
  The theorems of this section are about a row \<open>d\<close> of a batch \<open>pre @ d # post\<close> that
  passed the schema, at the moment the loop reaches it: the rows of \<open>pre\<close> were imported
  without error and left the store \<open>st1\<close> and the result lists \<open>cr\<close> and \<open>up\<close>.
  The names \<open>ns\<close>, \<open>em\<close>, \<open>un\<close>, \<open>fn\<close> and \<open>ln\<close> stand for the role names, the
  email, the user name and the first and last name of the row.
\<close>

text \<open>
  Claim C5: when row k of a batch that passed the schema has a role name that does not
  resolve, the import fails with \<open>UnknownRole\<close> for the first such name of the row.
  The store it returns is the one that rows 1 to k-1 left, with nothing but lookups added
  to the call log: what those rows created or updated stays, and neither row k nor any
  later row changes a user.
\<close>

theorem unknown_role_aborts:
  assumes "UserSchema_load vl (pre @ d # post) = []"
    and "import_loop pre ([], []) st = (Inr (cr, up), st1)"
    and "names_at d = Some ns" and "\<not> set ns \<subseteq> set (all_roles st)"
  shows "import_users vl (pre @ d # post) st
     = (Inl (UnknownRole (hd (dropWhile (\<lambda>n. n \<in> set (all_roles st)) ns)) (all_roles st)),
        st1\<lparr>calls := calls st1
               @ map FindRole (takeWhile (\<lambda>n. n \<in> set (all_roles st)) ns)
               @ [FindRole (hd (dropWhile (\<lambda>n. n \<in> set (all_roles st)) ns)), GetAllRoles]\<rparr>)
     \<and> hd (dropWhile (\<lambda>n. n \<in> set (all_roles st)) ns) \<in> set ns
     \<and> hd (dropWhile (\<lambda>n. n \<in> set (all_roles st)) ns) \<notin> set (all_roles st)"
proof -
  have a: "all_roles st1 = all_roles st"
    using import_loop_all_roles [of pre "([], [])" st] assms(2) by simp
  with assms(4) have "\<not> set ns \<subseteq> set (all_roles st1)" by simp
  from import_record_unknown_role [OF assms(3) this]
  show ?thesis
    using first_unknown [OF assms(4)]
    by (simp add: import_users_split [OF assms(1,2)] a)
qed

theorem unknown_role_aborts_witness:
  "fst (import_users example_validators
          [ann, ann_row ''Bob'' ''bob'' ''b@x.com'' [''Viewer'', ''Guest''], ann] store_empty)
     = Inl (UnknownRole ''Guest'' [''Admin'', ''Viewer''])
   \<and> users (snd (import_users example_validators
          [ann, ann_row ''Bob'' ''bob'' ''b@x.com'' [''Viewer'', ''Guest''], ann] store_empty))
     = [alee]"
proof -
  let ?bob = "ann_row ''Bob'' ''bob'' ''b@x.com'' [''Viewer'', ''Guest'']"
  let ?st1 = "store_empty\<lparr>users := [alee], next_id := Suc (Suc 0),
      calls := [FindRole ''Viewer'', FindUser None (Some ''a@x.com''),
                AddUser ''alee'' ''a@x.com'']\<rparr>"
  have v: "UserSchema_load example_validators ([ann] @ ?bob # [ann]) = []"
    by (simp add: UserSchema_load_nil ann_def ann_row_valid)
  have "import_record ann store_empty = (Inr (Created ''a@x.com''), ?st1)"
    by (simp add: import_record_def ann_def ann_row_fields sm_find_role_def sm_find_user_def
        sm_add_user_def lookup_user_def log_def store_empty_def store_of_def alee_def Let_def)
  then have p: "import_loop [ann] ([], []) store_empty = (Inr ([''a@x.com''], []), ?st1)"
    by simp
  have n: "names_at ?bob = Some [''Viewer'', ''Guest'']"
    by (simp add: ann_row_fields)
  have u: "\<not> set [''Viewer'', ''Guest''] \<subseteq> set (all_roles store_empty)"
    by (simp add: store_empty_def store_of_def)
  show ?thesis
    using unknown_role_aborts [OF v p n u]
    by (simp add: store_empty_def store_of_def)
qed

text \<open>
  Claim C4: when the email of the row matches a user of the store whose user name differs
  from the row's, the import fails with \<open>IdentityConflict\<close>. The store it returns
  differs from the one the loop had reached only by logged lookups, so the matched user
  keeps its roles, names, identifier and user name.
\<close>

theorem username_change_refused:
  assumes "UserSchema_load vl (pre @ d # post) = []"
    and "import_loop pre ([], []) st = (Inr (cr, up), st1)"
    and "names_at d = Some ns" and "set ns \<subseteq> set (all_roles st1)"
    and "str_at d ''email'' = Some em" and "str_at d ''username'' = Some un"
    and "lookup_user None (Some em) (users st1) = Some (i, u)" and "username u \<noteq> un"
  shows "import_users vl (pre @ d # post) st
     = (Inl (IdentityConflict em),
        st1\<lparr>calls := calls st1 @ map FindRole ns @ [FindUser None (Some em)]\<rparr>)
     \<and> i < length (users st1) \<and> users st1 ! i = u"
proof -
  from assms(1) have "UserSchema_row vl d = []"
    by (simp add: UserSchema_load_nil)
  then obtain fn ln where "str_at d ''firstname'' = Some fn" "str_at d ''lastname'' = Some ln"
    using valid_row_fields by blast
  from import_record_conflict [OF assms(3,4,5,6) this assms(7,8)]
  show ?thesis
    using lookup_user_Some [OF assms(7)]
    by (simp add: import_users_split [OF assms(1,2)])
qed

theorem username_change_refused_witness:
  "fst (import_users example_validators
          [ann_row ''Ann'' ''aleesmith'' ''a@x.com'' [''Viewer'']] store_ann)
     = Inl (IdentityConflict ''a@x.com'')
   \<and> users (snd (import_users example_validators
          [ann_row ''Ann'' ''aleesmith'' ''a@x.com'' [''Viewer'']] store_ann))
     = [alee]"
proof -
  let ?row = "ann_row ''Ann'' ''aleesmith'' ''a@x.com'' [''Viewer'']"
  have v: "UserSchema_load example_validators ([] @ ?row # []) = []"
    by (simp add: UserSchema_load_nil ann_row_valid)
  have p: "import_loop [] ([], []) store_ann = (Inr ([], []), store_ann)"
    by simp
  have r: "set [''Viewer''] \<subseteq> set (all_roles store_ann)"
    and l: "lookup_user None (Some ''a@x.com'') (users store_ann) = Some (0, alee)"
    and n: "username alee \<noteq> ''aleesmith''"
    by (simp_all add: lookup_user_def store_ann_def store_of_def alee_def)
  show ?thesis
    using username_change_refused [OF v p ann_row_fields(5) r ann_row_fields(1,2) l n]
    by (simp add: store_ann_def store_of_def)
qed

text \<open>
  Claim C2, as stated: a row whose email matches a user with the row's user name updates
  that user, and so re-importing an unchanged export reports every record as updated. The
  second half fails on the code, because an export need not pass the schema. After
  \<^verbatim>\<open>remove_role\<close> has taken the only role of Ann Lee her exported row has no role,
  and after \<^verbatim>\<open>users_create\<close> has stored a user with the email \<^verbatim>\<open>nobody\<close>, which
  it does not validate, the exported row has no valid address: in both stores the import
  of the unchanged export fails with a validation report and updates nobody.
\<close>

theorem reimport_export_rejected:
  "fst (remove_role (args_of (Some ''alee'') None ''Viewer'') store_ann) = Inr ()
   \<and> fst (import_users example_validators (fst (users_export store_stripped))
            (snd (users_export store_stripped)))
       = Inl (ValidationError [(0, [(''roles'', Messages [''Shorter than minimum length 1.''])])])
   \<and> fst (users_create create_nobody example_console store_empty) = Inr ()
   \<and> fst (import_users example_validators (fst (users_export store_nobody))
            (snd (users_export store_nobody)))
       = Inl (ValidationError [(0, [(''email'', Messages [''Not a valid email address.''])])])"
proof -
  have r: "remove_role (args_of (Some ''alee'') None ''Viewer'') store_ann
      = (Inr (),
         store_ann\<lparr>users := [alee\<lparr>roles := []\<rparr>],
                    calls := [FindUser (Some ''alee'') None, FindRole ''Viewer'',
                              UpdateUser 0]\<rparr>)"
    by (simp add: remove_role_def users_manage_role_def find_user_def sm_find_user_def
        sm_find_role_def sm_update_user_def modify_user_def lookup_user_def truthy_def log_def
        args_of_def store_ann_def store_of_def alee_def)
  have c: "users_create create_nobody example_console store_empty
      = (Inr (),
         store_empty\<lparr>users := [alee\<lparr>email := ''nobody'', roles := [''Viewer''],
                                     password := ''pw''\<rparr>],
                      next_id := Suc (Suc 0),
                      calls := [FindRole ''Viewer'', FindUser (Some ''alee'') None,
                                AddUser ''alee'' ''nobody'']\<rparr>)"
    by (simp add: users_create_def create_password_def sm_find_role_def sm_find_user_def
        sm_add_user_def lookup_user_def log_def Let_def create_nobody_def create_ann_def
        store_empty_def store_of_def alee_def)
  have s: "UserSchema_row example_validators (snapshot (alee\<lparr>roles := []\<rparr>))
      = [(''roles'', Messages [''Shorter than minimum length 1.''])]"
    by (simp add: UserSchema_row_def check_field_def snapshot_def Int_field_def Str_field_def
        Email_field_def List_field_def unknown_fields_def declared_fields_def
        example_validators_def alee_def)
  have n: "UserSchema_row example_validators
             (snapshot (alee\<lparr>email := ''nobody'', roles := [''Viewer''], password := ''pw''\<rparr>))
      = [(''email'', Messages [''Not a valid email address.''])]"
    by (simp add: UserSchema_row_def check_field_def snapshot_def Int_field_def Str_field_def
        Email_field_def List_field_def unknown_fields_def declared_fields_def
        example_validators_def alee_def)
  show ?thesis
    by (simp add: r c store_stripped_def store_nobody_def users_export_def sm_get_all_users_def
        log_def import_users_def UserSchema_load_def s n)
qed

text \<open>
  Claim C2, amended: when the email of the row matches a user of the store with the row's
  user name, the import replaces the roles of that user by the row's roles (the old ones
  are dropped) and its first and last name by the row's, keeps its identifier, user name
  and email, appends the email to \<^verbatim>\<open>users_updated\<close> and goes on with the next row.
  No value of the user is compared with the row first. As a consequence, for a store
  whose users have distinct, non-empty emails that the address validator accepts and at
  least one role each, all of them roles of the store, importing what
  \<^verbatim>\<open>users_export\<close> wrote reports every user under \<^verbatim>\<open>users_updated\<close>, in the
  store's order, creates nobody and changes no user.
\<close>

theorem update_by_email:
  "(UserSchema_load vl (pre @ d # post) = []
      \<and> import_loop pre ([], []) st = (Inr (cr, up), st1)
      \<and> names_at d = Some ns \<and> set ns \<subseteq> set (all_roles st1)
      \<and> str_at d ''email'' = Some em \<and> str_at d ''username'' = Some un
      \<and> str_at d ''firstname'' = Some fn \<and> str_at d ''lastname'' = Some ln
      \<and> lookup_user None (Some em) (users st1) = Some (i, u) \<and> username u = un \<longrightarrow>
    import_users vl (pre @ d # post) st
      = import_loop post (cr, up @ [em])
          (st1\<lparr>users := (users st1)[i := u\<lparr>roles := ns, first_name := fn, last_name := ln\<rparr>],
               calls := calls st1 @ map FindRole ns @ [FindUser None (Some em), UpdateUser i]\<rparr>)
    \<and> i < length (users st1) \<and> users st1 ! i = u)
   \<and> (distinct (map email (users st))
      \<and> (\<forall>x\<in>set (users st). roles x \<noteq> [] \<and> set (roles x) \<subseteq> set (all_roles st)
             \<and> email x \<noteq> [] \<and> email_ok vl (email x)) \<longrightarrow>
    (\<exists>cs. import_users vl (fst (users_export st)) (snd (users_export st))
            = (Inr ([], map email (users st)), st\<lparr>calls := calls st @ cs\<rparr>)))"
proof (intro conjI impI)
  assume h: "UserSchema_load vl (pre @ d # post) = []
      \<and> import_loop pre ([], []) st = (Inr (cr, up), st1)
      \<and> names_at d = Some ns \<and> set ns \<subseteq> set (all_roles st1)
      \<and> str_at d ''email'' = Some em \<and> str_at d ''username'' = Some un
      \<and> str_at d ''firstname'' = Some fn \<and> str_at d ''lastname'' = Some ln
      \<and> lookup_user None (Some em) (users st1) = Some (i, u) \<and> username u = un"
  then have r: "import_record d st1
     = (Inr (Updated em),
        st1\<lparr>users := (users st1)[i := u\<lparr>roles := ns, first_name := fn, last_name := ln\<rparr>],
            calls := calls st1 @ map FindRole ns @ [FindUser None (Some em), UpdateUser i]\<rparr>)"
    by (intro import_record_update) simp_all
  from h have s: "UserSchema_load vl (pre @ d # post) = []"
    "import_loop pre ([], []) st = (Inr (cr, up), st1)" by simp_all
  show "import_users vl (pre @ d # post) st
      = import_loop post (cr, up @ [em])
          (st1\<lparr>users := (users st1)[i := u\<lparr>roles := ns, first_name := fn, last_name := ln\<rparr>],
               calls := calls st1 @ map FindRole ns @ [FindUser None (Some em), UpdateUser i]\<rparr>)"
    by (simp add: import_users_split [OF s] r)
  from h show "i < length (users st1)" "users st1 ! i = u"
    using lookup_user_Some by blast+
next
  assume "distinct (map email (users st))
      \<and> (\<forall>x\<in>set (users st). roles x \<noteq> [] \<and> set (roles x) \<subseteq> set (all_roles st)
             \<and> email x \<noteq> [] \<and> email_ok vl (email x))"
  then show "\<exists>cs. import_users vl (fst (users_export st)) (snd (users_export st))
            = (Inr ([], map email (users st)), st\<lparr>calls := calls st @ cs\<rparr>)"
    using reimport_export by blast
qed

theorem update_by_email_witness:
  "fst (import_users example_validators [ann_row ''Anna'' ''alee'' ''a@x.com'' [''Admin'']]
          store_ann) = Inr ([], [''a@x.com''])
   \<and> users (snd (import_users example_validators
          [ann_row ''Anna'' ''alee'' ''a@x.com'' [''Admin'']] store_ann))
     = [alee\<lparr>roles := [''Admin''], first_name := ''Anna''\<rparr>]
   \<and> (\<exists>cs. import_users example_validators (fst (users_export store_ann))
              (snd (users_export store_ann))
            = (Inr ([], [''a@x.com'']), store_ann\<lparr>calls := cs\<rparr>))"
proof -
  let ?row = "ann_row ''Anna'' ''alee'' ''a@x.com'' [''Admin'']"
  have v: "UserSchema_load example_validators ([] @ ?row # []) = []"
    by (simp add: UserSchema_load_nil ann_row_valid)
  have p: "import_loop [] ([], []) store_ann = (Inr ([], []), store_ann)"
    by simp
  have r: "set [''Admin''] \<subseteq> set (all_roles store_ann)"
    and l: "lookup_user None (Some ''a@x.com'') (users store_ann) = Some (0, alee)"
    and n: "username alee = ''alee''"
    by (simp_all add: lookup_user_def store_ann_def store_of_def alee_def)
  have inv: "distinct (map email (users store_ann))
      \<and> (\<forall>x\<in>set (users store_ann). roles x \<noteq> [] \<and> set (roles x) \<subseteq> set (all_roles store_ann)
             \<and> email x \<noteq> [] \<and> email_ok example_validators (email x))"
    by (simp add: store_ann_def store_of_def alee_def example_validators_def)
  have c: "calls store_ann = []"
    by (simp add: store_ann_def store_of_def)
  show ?thesis
    using update_by_email [of example_validators "[]" ?row "[]" store_ann "[]" "[]" store_ann
        "[''Admin'']" "''a@x.com''" "''alee''" "''Anna''" "''Lee''" 0 alee]
      v p r l n inv
    by (simp add: ann_row_fields c) (simp add: store_ann_def store_of_def alee_def)
qed

text \<open>
  Claim C3, as stated: for every valid row whose email is absent from the store and whose
  role names all resolve, the import creates exactly one new user and appends the email
  to \<^verbatim>\<open>users_created\<close>. This fails on the code when the store refuses the new user:
  the row below has a new email and the user name of Ann Lee, who is in the store. User
  names are unique, so \<^verbatim>\<open>add_user\<close> adds nobody; \<^verbatim>\<open>_import_users\<close> does not read
  its result and reports the email as created while the users of the store are unchanged.
\<close>

theorem import_reports_refused_user:
  "UserSchema_load example_validators [ann_row ''Ann'' ''alee'' ''b@x.com'' [''Viewer'']] = []
   \<and> ''b@x.com'' \<notin> set (map email (users store_ann))
   \<and> set [''Viewer''] \<subseteq> set (all_roles store_ann)
   \<and> import_users example_validators [ann_row ''Ann'' ''alee'' ''b@x.com'' [''Viewer'']] store_ann
       = (Inr ([''b@x.com''], []),
          store_ann\<lparr>calls := [FindRole ''Viewer'', FindUser None (Some ''b@x.com''),
                              AddUser ''alee'' ''b@x.com'']\<rparr>)"
proof -
  have v: "UserSchema_load example_validators
             [ann_row ''Ann'' ''alee'' ''b@x.com'' [''Viewer'']] = []"
    by (simp add: UserSchema_load_nil ann_row_valid)
  have "import_record (ann_row ''Ann'' ''alee'' ''b@x.com'' [''Viewer'']) store_ann
      = (Inr (Created ''b@x.com''),
         store_ann\<lparr>calls := [FindRole ''Viewer'', FindUser None (Some ''b@x.com''),
                              AddUser ''alee'' ''b@x.com'']\<rparr>)"
    by (simp add: import_record_def ann_row_fields sm_find_role_def sm_find_user_def
        sm_add_user_def lookup_user_def log_def store_ann_def store_of_def alee_def)
  then show ?thesis
    using v by (simp add: import_users_def store_ann_def store_of_def alee_def)
qed

text \<open>
  Claim C3, amended: for every valid row whose email is absent from the store, whose role
  names all resolve, whose user name is not in use and whose creation the store does not
  reject, the import adds exactly one user to the store, with the row's user name, first
  name, last name and email and the resolved roles, appends the email to
  \<^verbatim>\<open>users_created\<close> and goes on with the next row.
\<close>

theorem create_by_email:
  assumes "UserSchema_load vl (pre @ d # post) = []"
    and "import_loop pre ([], []) st = (Inr (cr, up), st1)"
    and "names_at d = Some ns" and "set ns \<subseteq> set (all_roles st1)"
    and "str_at d ''email'' = Some em" and "str_at d ''username'' = Some un"
    and "str_at d ''firstname'' = Some fn" and "str_at d ''lastname'' = Some ln"
    and "em \<notin> set (map email (users st1))"
    and "un \<notin> set (map username (users st1))" and "\<not> rejects st1 (AddUser un em)"
  shows "import_users vl (pre @ d # post) st
     = import_loop post (cr @ [em], up)
         (st1\<lparr>users := users st1
                  @ [\<lparr>user_id = next_id st1, username = un, email = em, first_name = fn,
                      last_name = ln, roles = ns, password = []\<rparr>],
              next_id := Suc (next_id st1),
              calls := calls st1 @ map FindRole ns @ [FindUser None (Some em), AddUser un em]\<rparr>)"
  using import_record_create [OF assms(3-11)]
  by (simp add: import_users_split [OF assms(1,2)])

theorem create_by_email_witness:
  "fst (import_users example_validators [ann] store_empty) = Inr ([''a@x.com''], [])
   \<and> users (snd (import_users example_validators [ann] store_empty)) = [alee]"
proof -
  have v: "UserSchema_load example_validators ([] @ ann # []) = []"
    by (simp add: UserSchema_load_nil ann_def ann_row_valid)
  have p: "import_loop [] ([], []) store_empty = (Inr ([], []), store_empty)"
    by simp
  have r: "set [''Viewer''] \<subseteq> set (all_roles store_empty)"
    and e: "''a@x.com'' \<notin> set (map email (users store_empty))"
    and n: "''alee'' \<notin> set (map username (users store_empty))"
    and j: "\<not> rejects store_empty (AddUser ''alee'' ''a@x.com'')"
    by (simp_all add: store_empty_def store_of_def)
  have "import_users example_validators ([] @ ann # []) store_empty
     = import_loop [] ([] @ [''a@x.com''], [])
         (store_empty\<lparr>users := users store_empty
                  @ [\<lparr>user_id = next_id store_empty, username = ''alee'', email = ''a@x.com'',
                      first_name = ''Ann'', last_name = ''Lee'', roles = [''Viewer''],
                      password = []\<rparr>],
              next_id := Suc (next_id store_empty),
              calls := calls store_empty @ map FindRole [''Viewer'']
                       @ [FindUser None (Some ''a@x.com''), AddUser ''alee'' ''a@x.com'']\<rparr>)"
    by (rule create_by_email [OF v p _ r _ _ _ _ e n j])
       (simp_all add: ann_def ann_row_fields)
  then show ?thesis
    by (simp add: store_empty_def store_of_def alee_def)
qed

end
